theory Spec2Isabelle
  imports Complex_Main
begin

section \<open>Overview\<close>

text \<open>
  A model of the granular synthesizer's scheduling core, the component \<open>App\<close>: the
  voice registry (\<open>handleNoteOn\<close>, \<open>handleNoteOff\<close>), the envelope and the sweep
  inside the \<open>forEach\<close> of \<open>scheduleGrains\<close>, the grain placement, the lookahead
  loop, and the effect that starts and stops the loop. State held in refs is passed
  explicitly; what the audio graph receives is returned as a list of slots, each
  with the grains started in it. Three idealisations are made throughout: numbers
  are reals, the audio clock is read once per call, and the results of
  \<open>Math.random\<close> are an input sequence.
\<close>

section \<open>Data model\<close>

text \<open>
  The synthesizer keeps its numbers in JavaScript \<open>number\<close>s; they are modelled as
  real numbers. A note number is an integer (a MIDI data byte or an entry of the
  key table). The optional field \<open>releaseTime?\<close> of the interface \<open>NoteState\<close>
  is an option.
\<close>

record NoteState =
  velocity :: real
  startTime :: real
  releaseTime :: "real option"
  isReleased :: bool

record GranularParams =
  position :: real
  spread :: real
  grainSize :: real
  density :: real
  pitch :: real
  pitchSpread :: real
  volume :: real
  attack :: real
  decay :: real
  sustain :: real
  release :: real
  delayTime :: real
  delayFeedback :: real
  delayWet :: real
  reverbWet :: real

text \<open>An entry of the list \<open>notesToPlay\<close> built in every scheduling slot.\<close>

record Voice =
  playbackRate :: real
  gain :: real

text \<open>
  What one grain hands to the audio graph: the arguments of
  \<open>src.start(now, offsetSeconds, duration)\<close>, the value written to
  \<open>src.playbackRate\<close> and the peak of the gain window.
\<close>

record Grain =
  scheduledStartTime :: real
  offsetSeconds :: real
  durationSeconds :: real
  finalRate :: real
  peakGain :: real

text \<open>
  The mutable state of the component: the map \<open>activeNotesRef\<close> (a JavaScript
  \<open>Map\<close>, which iterates in insertion order, hence an association list), the
  React state \<open>activeNotesUI\<close>, the cursor \<open>nextGrainTimeRef\<close>, the handle
  \<open>timerIdRef\<close>, and the browser's side of \<open>requestAnimationFrame\<close>: the last
  handle it issued and the callbacks still pending. \<open>rngIndex\<close> counts the calls
  of \<open>Math.random\<close> made so far.
\<close>

record Engine =
  activeNotes :: "(int \<times> NoteState) list"
  activeNotesUI :: "int list"
  nextGrainTime :: real
  timerId :: "nat option"
  lastHandle :: nat
  pendingFrames :: "nat list"
  rngIndex :: nat

text \<open>
  What a call reads without changing it: the audio context (\<open>None\<close> while it has
  not been created, otherwise its \<open>currentTime\<close>), the duration of the decoded
  buffer (\<open>None\<close> while no sample is loaded), whether \<open>audioGraphRef.current\<close>
  is set, the parameter snapshot \<open>paramsRef.current\<close>, the clip window
  \<open>sampleRangeRef.current\<close>, the drone flag \<open>isPlaying\<close> captured by the
  callback, and the results of \<open>Math.random\<close> in the order of the calls.
\<close>

record Env =
  ctxTime :: "real option"
  bufferDuration :: "real option"
  graphReady :: bool
  params :: GranularParams
  sampleRange :: "real \<times> real"
  isPlaying :: bool
  random :: "nat \<Rightarrow> real"

section \<open>The voice registry\<close>

text \<open>\<open>Map.prototype.get\<close>, \<open>set\<close> and \<open>delete\<close> on the association list.
  \<open>set\<close> keeps the position of a key that is present and appends a new one.\<close>

definition map_get :: "(int \<times> NoteState) list \<Rightarrow> int \<Rightarrow> NoteState option" where
  "map_get m k = map_of m k"

definition map_set :: "int \<Rightarrow> NoteState \<Rightarrow> (int \<times> NoteState) list \<Rightarrow> (int \<times> NoteState) list" where
  "map_set k v m =
     (if k \<in> fst ` set m
      then map (\<lambda>(k', v'). if k' = k then (k', v) else (k', v')) m
      else m @ [(k, v)])"

definition map_delete :: "int \<Rightarrow> (int \<times> NoteState) list \<Rightarrow> (int \<times> NoteState) list" where
  "map_delete k m = filter (\<lambda>(k', v'). k' \<noteq> k) m"

text \<open>
  \<open>handleNoteOff\<close>: with the note present and an audio context, the entry is
  overwritten with \<open>isReleased: true\<close> and \<open>releaseTime: audioContext.currentTime\<close>;
  otherwise the entry is deleted. Both branches drop the note from \<open>activeNotesUI\<close>.
\<close>

definition handleNoteOff :: "real option \<Rightarrow> int \<Rightarrow> Engine \<Rightarrow> Engine" where
  "handleNoteOff ctx note s =
     (case (map_get (activeNotes s) note, ctx) of
        (Some noteData, Some currentTime) \<Rightarrow>
          s\<lparr>activeNotes :=
               map_set note (noteData\<lparr>isReleased := True, releaseTime := Some currentTime\<rparr>)
                 (activeNotes s),
            activeNotesUI := filter (\<lambda>n. n \<noteq> note) (activeNotesUI s)\<rparr>
      | _ \<Rightarrow>
          s\<lparr>activeNotes := map_delete note (activeNotes s),
            activeNotesUI := filter (\<lambda>n. n \<noteq> note) (activeNotesUI s)\<rparr>)"

section \<open>The envelope\<close>

text \<open>
  JavaScript truthiness of the optional number \<open>data.releaseTime\<close>: \<open>undefined\<close>
  and \<open>0\<close> are both falsy.
\<close>

fun truthy :: "real option \<Rightarrow> bool" where
  "truthy None = False"
| "truthy (Some r) = (r \<noteq> 0)"

text \<open>The clean-up test at the head of the \<open>forEach\<close> callback.\<close>

definition expired :: "GranularParams \<Rightarrow> real \<Rightarrow> NoteState \<Rightarrow> bool" where
  "expired p now data =
     (isReleased data \<and> truthy (releaseTime data) \<and>
      (case releaseTime data of None \<Rightarrow> False | Some r \<Rightarrow> now > r + release p))"

text \<open>
  The envelope computed in the callback: \<open>envGain\<close> starts at 0 and is assigned in
  the attack, decay, sustain and release branches; a released note whose
  \<open>releaseTime\<close> is falsy reaches no branch and keeps 0.
\<close>

definition envGain :: "GranularParams \<Rightarrow> NoteState \<Rightarrow> real \<Rightarrow> real" where
  "envGain p data now =
     (let timeSinceStart = now - startTime data;
          safeTime = max 0 timeSinceStart
      in if \<not> isReleased data then
           (if safeTime < attack p then safeTime / max 0.001 (attack p)
            else if safeTime < attack p + decay p then
              (let decayProgress = (safeTime - attack p) / max 0.001 (decay p)
               in 1.0 - (1.0 - sustain p) * decayProgress)
            else sustain p)
         else
           (case releaseTime data of
              Some r \<Rightarrow>
                if r \<noteq> 0 then
                  (let timeSinceRelease = now - r
                   in if timeSinceRelease < release p
                      then sustain p * (1.0 - (timeSinceRelease / max 0.001 (release p)))
                      else 0)
                else 0
            | None \<Rightarrow> 0))"

section \<open>One scheduling slot\<close>

definition baseNote :: int where
  "baseNote = 48"

text \<open>The request pushed for a note that is loud enough; \<open>Math.pow(2, x)\<close> is \<open>2 powr x\<close>.\<close>

definition noteVoice :: "GranularParams \<Rightarrow> real \<Rightarrow> int \<Rightarrow> NoteState \<Rightarrow> Voice" where
  "noteVoice p now note data =
     (let semitones = note - baseNote;
          rate = pitch p * (2 powr (real_of_int semitones / 12))
      in \<lparr>playbackRate = rate, gain = velocity data * envGain p data now\<rparr>)"

text \<open>
  \<open>activeNotesRef.current.forEach\<close>: the entries in insertion order; an expired
  entry is deleted and the callback returns, any other entry stays and pushes a
  request when its envelope exceeds 0.001. The result is the map after the pass
  and the requests pushed.
\<close>

fun forEachNote :: "GranularParams \<Rightarrow> real \<Rightarrow> (int \<times> NoteState) list
    \<Rightarrow> (int \<times> NoteState) list \<times> Voice list" where
  "forEachNote p now [] = ([], [])"
| "forEachNote p now ((note, data) # rest) =
     (let (kept, pushed) = forEachNote p now rest
      in if expired p now data then (kept, pushed)
         else if envGain p data now > 0.001
              then ((note, data) # kept, noteVoice p now note data # pushed)
              else ((note, data) # kept, pushed))"

text \<open>The drone request, pushed first when \<open>isPlaying\<close>.\<close>

definition droneVoices :: "Env \<Rightarrow> Voice list" where
  "droneVoices e = (if isPlaying e then [\<lparr>playbackRate = pitch (params e), gain = 1.0\<rparr>] else [])"

section \<open>Grain placement\<close>

text \<open>
  The position of one grain relative to the clip; \<open>u\<close> is the result of
  \<open>Math.random()\<close>. The two wrap tests run one after the other on the same
  variable, as in the source.
\<close>

definition relativeGrainPos :: "GranularParams \<Rightarrow> real \<Rightarrow> real" where
  "relativeGrainPos p u =
     (let randomOffset = (u - 0.5) * 2 * spread p;
          pos0 = position p + randomOffset;
          pos1 = (if pos0 < 0 then pos0 + 1 else pos0)
      in if pos1 > 1 then pos1 - 1 else pos1)"

text \<open>The start fraction after the mapping into the clip window and the safety clamp.\<close>

definition safeStartPct :: "GranularParams \<Rightarrow> real \<times> real \<Rightarrow> real \<Rightarrow> real" where
  "safeStartPct p clip u =
     (let clipStart = fst clip;
          clipEnd = snd clip;
          clipDurationPct = clipEnd - clipStart;
          absolutePosPct = clipStart + (relativeGrainPos p u * clipDurationPct)
      in max 0 (min 1 absolutePosPct))"

text \<open>The offset in seconds, moved back when the grain would run past the buffer.\<close>

definition grainOffset :: "GranularParams \<Rightarrow> real \<times> real \<Rightarrow> real \<Rightarrow> real \<Rightarrow> real" where
  "grainOffset p clip bufDuration u =
     (let offset = safeStartPct p clip u * bufDuration;
          duration = grainSize p
      in if offset + duration > bufDuration then max 0 (bufDuration - duration) else offset)"

definition makeGrain :: "GranularParams \<Rightarrow> real \<times> real \<Rightarrow> real \<Rightarrow> real \<Rightarrow> Voice
    \<Rightarrow> real \<Rightarrow> real \<Rightarrow> Grain" where
  "makeGrain p clip bufDuration now voice u1 u2 =
     (let randomPitch = 1.0 + (u2 - 0.5) * 2 * pitchSpread p
      in \<lparr>scheduledStartTime = now,
          offsetSeconds = grainOffset p clip bufDuration u1,
          durationSeconds = grainSize p,
          finalRate = max 0.1 (playbackRate voice * randomPitch),
          peakGain = volume p * gain voice\<rparr>)"

text \<open>\<open>notesToPlay.forEach\<close>: every request takes two random numbers, in order.\<close>

fun emitGrains :: "Env \<Rightarrow> real \<Rightarrow> real \<Rightarrow> nat \<Rightarrow> Voice list \<Rightarrow> Grain list" where
  "emitGrains e bufDuration now i [] = []"
| "emitGrains e bufDuration now i (voice # voices) =
     makeGrain (params e) (sampleRange e) bufDuration now voice (random e i) (random e (Suc i))
       # emitGrains e bufDuration now (i + 2) voices"

section \<open>The scheduling loop\<close>

text \<open>The list \<open>notesToPlay\<close> of a slot: the drone request, then the requests of the notes.\<close>

definition notesToPlay :: "Env \<Rightarrow> real \<Rightarrow> (int \<times> NoteState) list \<Rightarrow> Voice list" where
  "notesToPlay e now m = droneVoices e @ snd (forEachNote (params e) now m)"

text \<open>The body of the \<open>while\<close> loop: the new state and the grains started in the slot.\<close>

definition runSlot :: "Env \<Rightarrow> real \<Rightarrow> Engine \<Rightarrow> Engine \<times> Grain list" where
  "runSlot e bufDuration s =
     (let p = params e;
          now = nextGrainTime s;
          voices = notesToPlay e now (activeNotes s);
          grains = emitGrains e bufDuration now (rngIndex s) voices
      in (s\<lparr>activeNotes := fst (forEachNote p now (activeNotes s)),
            rngIndex := rngIndex s + 2 * length voices,
            nextGrainTime := nextGrainTime s + max 0.005 (density p)\<rparr>,
          grains))"

text \<open>
  \<open>while (nextGrainTimeRef.current < ctx.currentTime + 0.1)\<close>, with the clock
  read as one value for the whole call. The result lists the slots in order, each
  with its cursor value and its grains.
\<close>

function slotLoop :: "Env \<Rightarrow> real \<Rightarrow> real \<Rightarrow> Engine \<Rightarrow> Engine \<times> (real \<times> Grain list) list" where
  "slotLoop e bufDuration currentTime s =
     (if nextGrainTime s < currentTime + 0.1
      then (let now = nextGrainTime s;
                r = runSlot e bufDuration s;
                rest = slotLoop e bufDuration currentTime (fst r)
            in (fst rest, (now, snd r) # snd rest))
      else (s, []))"
  by pat_completeness auto
termination
proof (relation "measure (\<lambda>(e, bufDuration, currentTime, s).
          nat \<lceil>(currentTime + 0.1 - nextGrainTime s) / max 0.005 (density (params e))\<rceil>)")
  show "wf (measure (\<lambda>(e, bufDuration, currentTime, s).
          nat \<lceil>(currentTime + 0.1 - nextGrainTime s) / max 0.005 (density (params e))\<rceil>))"
    by simp
next
  fix e :: Env and bufDuration currentTime :: real and s :: Engine and now :: real and r
  assume lt: "nextGrainTime s < currentTime + 0.1" and r: "r = runSlot e bufDuration s"
  define step where "step = max 0.005 (density (params e))"
  have step: "0 < step"
    by (simp add: step_def max_def)
  have nxt: "nextGrainTime (fst r) = nextGrainTime s + step"
    by (simp add: r runSlot_def Let_def split_def step_def)
  have "(currentTime + 0.1 - nextGrainTime (fst r)) / step
        = (currentTime + 0.1 - nextGrainTime s) / step - 1"
    using step by (simp add: nxt field_simps)
  moreover have "0 < (currentTime + 0.1 - nextGrainTime s) / step"
    using lt step by simp
  ultimately have "nat \<lceil>(currentTime + 0.1 - nextGrainTime (fst r)) / step\<rceil>
        < nat \<lceil>(currentTime + 0.1 - nextGrainTime s) / step\<rceil>"
    by (simp add: nat_less_iff)
  then show "((e, bufDuration, currentTime, fst r), (e, bufDuration, currentTime, s))
        \<in> measure (\<lambda>(e, bufDuration, currentTime, s).
            nat \<lceil>(currentTime + 0.1 - nextGrainTime s) / max 0.005 (density (params e))\<rceil>)"
    by (simp add: step_def)
qed

declare slotLoop.simps [simp del]

section \<open>Animation frames\<close>

text \<open>
  \<open>timerIdRef.current = requestAnimationFrame(scheduleGrains)\<close>: the browser issues
  a fresh non-zero handle and queues the callback; the handle is stored.
  \<open>cancelAnimationFrame\<close> removes the callback from the queue.
\<close>

definition requestFrame :: "Engine \<Rightarrow> Engine" where
  "requestFrame s =
     (let h = Suc (lastHandle s)
      in s\<lparr>lastHandle := h, pendingFrames := pendingFrames s @ [h], timerId := Some h\<rparr>)"

definition cancelAnimationFrame :: "nat \<Rightarrow> Engine \<Rightarrow> Engine" where
  "cancelAnimationFrame h s = s\<lparr>pendingFrames := removeAll h (pendingFrames s)\<rparr>"

text \<open>Truthiness of \<open>timerIdRef.current\<close> (\<open>null\<close> or a handle).\<close>

definition timerSet :: "Engine \<Rightarrow> bool" where
  "timerSet s = (case timerId s of None \<Rightarrow> False | Some h \<Rightarrow> h \<noteq> 0)"

text \<open>
  \<open>scheduleGrains\<close>: nothing happens without audio context, buffer or graph;
  otherwise the loop runs and the callback requests its next frame, whatever the
  registry and the drone flag are.
\<close>

definition scheduleGrains :: "Env \<Rightarrow> Engine \<Rightarrow> Engine \<times> (real \<times> Grain list) list" where
  "scheduleGrains e s =
     (case (ctxTime e, bufferDuration e) of
        (Some currentTime, Some bufDuration) \<Rightarrow>
          if graphReady e
          then (let r = slotLoop e bufDuration currentTime s
                in (requestFrame (fst r), snd r))
          else (s, [])
      | _ \<Rightarrow> (s, []))"

text \<open>
  \<open>handleNoteOn\<close> stores a fresh entry (\<open>set\<close> overwrites a held note) with the
  clock as start time, or 0 without an audio context, and adds the note to
  \<open>activeNotesUI\<close>; then, when no frame handle is held and the audio context
  exists, it moves the cursor to the clock and calls \<open>scheduleGrains\<close>. The
  velocity is the argument (0.8 when the caller gives none).
\<close>

definition storeNote :: "Env \<Rightarrow> int \<Rightarrow> real \<Rightarrow> Engine \<Rightarrow> Engine" where
  "storeNote e note vel s =
     (let start = (case ctxTime e of Some currentTime \<Rightarrow> currentTime | None \<Rightarrow> 0)
      in s\<lparr>activeNotes :=
             map_set note \<lparr>velocity = vel, startTime = start,
                           releaseTime = None, isReleased = False\<rparr> (activeNotes s),
           activeNotesUI :=
             (if note \<in> set (activeNotesUI s) then activeNotesUI s
              else activeNotesUI s @ [note])\<rparr>)"

definition handleNoteOn :: "Env \<Rightarrow> int \<Rightarrow> real \<Rightarrow> Engine \<Rightarrow> Engine \<times> (real \<times> Grain list) list" where
  "handleNoteOn e note vel s =
     (let s1 = storeNote e note vel s
      in case ctxTime e of
           Some currentTime \<Rightarrow>
             if \<not> timerSet s1 then scheduleGrains e (s1\<lparr>nextGrainTime := currentTime\<rparr>)
             else (s1, [])
         | None \<Rightarrow> (s1, []))"

text \<open>
  The effect that starts and stops the loop. It runs when \<open>isPlaying\<close>,
  \<open>activeNotesUI\<close>, the callback or the audio context change; its clean-up runs
  before the next run and cancels the frame without clearing the handle.
\<close>

definition loopEffect :: "Env \<Rightarrow> Engine \<Rightarrow> Engine" where
  "loopEffect e s =
     (let hasNotes = length (activeNotes s) > 0
      in case ctxTime e of
           Some currentTime \<Rightarrow>
             if isPlaying e \<or> hasNotes then
               (let s1 = (if nextGrainTime s < currentTime - 0.2
                          then s\<lparr>nextGrainTime := currentTime\<rparr> else s)
                in if \<not> timerSet s1
                   then requestFrame (s1\<lparr>nextGrainTime := max (nextGrainTime s1) currentTime\<rparr>)
                   else s1)
             else
               (case timerId s of
                  Some h \<Rightarrow> if h \<noteq> 0 then (cancelAnimationFrame h s)\<lparr>timerId := None\<rparr> else s
                | None \<Rightarrow> s)
         | None \<Rightarrow>
             (case timerId s of
                Some h \<Rightarrow>
                  if \<not> isPlaying e \<and> \<not> hasNotes \<and> h \<noteq> 0
                  then (cancelAnimationFrame h s)\<lparr>timerId := None\<rparr> else s
              | None \<Rightarrow> s))"

definition loopEffectCleanup :: "Engine \<Rightarrow> Engine" where
  "loopEffectCleanup s =
     (case timerId s of
        Some h \<Rightarrow> if h \<noteq> 0 then cancelAnimationFrame h s else s
      | None \<Rightarrow> s)"

text \<open>
  One animation frame: the browser takes the oldest pending callback off its queue
  and runs it. A run of frames reads the environment of each frame in turn.
\<close>

definition animationFrame :: "Env \<Rightarrow> Engine \<Rightarrow> Engine" where
  "animationFrame e s =
     (case pendingFrames s of
        [] \<Rightarrow> s
      | h # hs \<Rightarrow> fst (scheduleGrains e (s\<lparr>pendingFrames := hs\<rparr>)))"

fun runFrames :: "Env list \<Rightarrow> Engine \<Rightarrow> Engine" where
  "runFrames [] s = s"
| "runFrames (e # es) s = runFrames es (animationFrame e s)"

section \<open>The registry invariant\<close>

text \<open>The invariant of the data model: \<open>releaseTime\<close> is set iff \<open>isReleased\<close>.\<close>

definition noteInv :: "NoteState \<Rightarrow> bool" where
  "noteInv data = ((releaseTime data \<noteq> None) = isReleased data)"

definition registryInv :: "(int \<times> NoteState) list \<Rightarrow> bool" where
  "registryInv m = list_all (\<lambda>(note, data). noteInv data) m"

section \<open>Sample parameters and states\<close>

text \<open>
  The parameter snapshot the component starts with (\<open>paramsRef\<close>), an environment
  with a running audio context at clock 1, a ten-second sample and the full clip
  window, and a held middle C in an otherwise idle engine.
\<close>

definition initialParams :: GranularParams where
  "initialParams =
     \<lparr>position = 0.5, spread = 0.1, grainSize = 0.1, density = 0.05, pitch = 1.0,
      pitchSpread = 0.0, volume = 0.7, attack = 0.1, decay = 0.2, sustain = 0.8,
      release = 0.5, delayTime = 0.3, delayFeedback = 0.4, delayWet = 0.0, reverbWet = 0.0\<rparr>"

definition readyEnv :: Env where
  "readyEnv =
     \<lparr>ctxTime = Some 1, bufferDuration = Some 10, graphReady = True, params = initialParams,
      sampleRange = (0, 1), isPlaying = False, random = (\<lambda>i. 0.5)\<rparr>"

definition heldNote :: NoteState where
  "heldNote = \<lparr>velocity = 0.8, startTime = 0, releaseTime = None, isReleased = False\<rparr>"

definition oneNote :: Engine where
  "oneNote = \<lparr>activeNotes = [(60, heldNote)], activeNotesUI = [60], nextGrainTime = 0,
      timerId = None, lastHandle = 0, pendingFrames = [], rngIndex = 0\<rparr>"



section \<open>The envelope and the placement as the specification words them\<close>

text \<open>
  The envelope in the words of the specification: released notes fade from the
  sustain level over the release time, measured from the release time that was
  stored. (A released note without a release time is outside the invariant; it is
  given 0.)
\<close>

definition envelopeGain :: "GranularParams \<Rightarrow> NoteState \<Rightarrow> real \<Rightarrow> real" where
  "envelopeGain p data now =
     (if \<not> isReleased data then
        (let t = max 0 (now - startTime data)
         in if t < attack p then t / max 0.001 (attack p)
            else if t < attack p + decay p
                 then 1 - (1 - sustain p) * (t - attack p) / max 0.001 (decay p)
                 else sustain p)
      else
        (case releaseTime data of
           Some rt \<Rightarrow>
             (let tr = now - rt
              in if tr < release p then sustain p * (1 - tr / max 0.001 (release p)) else 0)
         | None \<Rightarrow> 0))"

text \<open>The held note after a note-off that read the clock at 0.\<close>

definition stuckNote :: NoteState where
  "stuckNote = heldNote\<lparr>isReleased := True, releaseTime := Some 0\<rparr>"



section \<open>A short tap on a key\<close>

text \<open>
  A short tap. The key and MIDI listeners are installed when the audio context
  appears, before a sample can be loaded, so the \<open>handleNoteOn\<close> they call sees no
  buffer (\<open>tapEnv\<close>); the effect and the frames see the loaded sample
  (\<open>frameEnv\<close>). Density 0.2 and release 0.1 keep the run short.
\<close>

definition tapParams :: GranularParams where
  "tapParams = initialParams\<lparr>density := 0.2, release := 0.1\<rparr>"

definition tapEnv :: Env where
  "tapEnv =
     \<lparr>ctxTime = Some 1, bufferDuration = None, graphReady = True, params = tapParams,
      sampleRange = (0, 1), isPlaying = False, random = (\<lambda>i. 0.5)\<rparr>"

definition frameEnv :: "real \<Rightarrow> Env" where
  "frameEnv t =
     \<lparr>ctxTime = Some t, bufferDuration = Some 10, graphReady = True, params = tapParams,
      sampleRange = (0, 1), isPlaying = False, random = (\<lambda>i. 0.5)\<rparr>"

definition idleEngine :: Engine where
  "idleEngine = \<lparr>activeNotes = [], activeNotesUI = [], nextGrainTime = 0,
      timerId = None, lastHandle = 0, pendingFrames = [], rngIndex = 0\<rparr>"

text \<open>Note-on and note-off at clock 1 before the effect runs, then the effect.\<close>

definition tapped :: Engine where
  "tapped = handleNoteOff (Some 1) 60 (fst (handleNoteOn tapEnv 60 0.8 idleEngine))"

definition tapStarted :: Engine where
  "tapStarted = loopEffect (frameEnv 1) (loopEffectCleanup tapped)"

text \<open>The frames at clocks 1, 1.2 and 1.4 that follow.\<close>

definition firstFrame :: Engine where
  "firstFrame = animationFrame (frameEnv 1) tapStarted"

definition sweepFrame :: Engine where
  "sweepFrame = animationFrame (frameEnv (6 / 5)) firstFrame"

definition idleFrame :: Engine where
  "idleFrame = animationFrame (frameEnv (7 / 5)) sweepFrame"

text \<open>The guard at the head of \<open>scheduleGrains\<close>.\<close>

definition audioReady :: "Env \<Rightarrow> bool" where
  "audioReady e = (ctxTime e \<noteq> None \<and> bufferDuration e \<noteq> None \<and> graphReady e)"

section \<open>Envelope parameter ranges\<close>

text \<open>The documented ranges of the envelope parameters.\<close>

definition adsrInRange :: "GranularParams \<Rightarrow> bool" where
  "adsrInRange p =
     (0 \<le> sustain p \<and> sustain p \<le> 1 \<and> 0 \<le> attack p \<and> 0 \<le> decay p \<and> 0 \<le> release p)"

text \<open>
  Two settings inside those ranges: a decay of 0, and a sustain of 1 with a note
  released at clock 1.
\<close>

definition jumpParams :: GranularParams where
  "jumpParams = initialParams\<lparr>decay := 0\<rparr>"

definition loudParams :: GranularParams where
  "loudParams = initialParams\<lparr>sustain := 1\<rparr>"

definition lateNote :: NoteState where
  "lateNote = heldNote\<lparr>isReleased := True, releaseTime := Some 1\<rparr>"

section \<open>Properties of the registry\<close>

lemma map_of_overwrite:
  "k \<in> fst ` set m \<Longrightarrow>
     map_of (map (\<lambda>(k', v'). if k' = k then (k', v) else (k', v')) m) k = Some v"
proof (induction m)
  case Nil
  then show ?case by simp
next
  case (Cons a m)
  obtain k' v' where a: "a = (k', v')" by (cases a)
  show ?case
  proof (cases "k' = k")
    case True
    then show ?thesis by (simp add: a)
  next
    case False
    with Cons a show ?thesis by simp
  qed
qed

lemma map_get_map_set: "map_get (map_set k v m) k = Some v"
proof (cases "k \<in> fst ` set m")
  case False
  then have "map_of m k = None"
    by (simp add: map_of_eq_None_iff)
  with False show ?thesis
    by (simp add: map_get_def map_set_def map_add_def)
next
  case True
  then show ?thesis
    by (simp add: map_get_def map_set_def map_of_overwrite)
qed

lemma map_get_map_delete: "map_get (map_delete k m) k = None"
  by (auto simp: map_get_def map_delete_def map_of_eq_None_iff)

lemma map_get_SomeD: "map_get m k = Some v \<Longrightarrow> k \<in> fst ` set m"
  unfolding map_get_def by (metis map_of_eq_None_iff option.distinct(1))

lemma map_delete_idem: "map_delete k (map_delete k m) = map_delete k m"
  by (simp add: map_delete_def)

lemma map_set_present:
  "k \<in> fst ` set m \<Longrightarrow> map_set k v m = map (\<lambda>(k', v'). if k' = k then (k', v) else (k', v')) m"
  by (simp add: map_set_def)

lemma keys_overwrite:
  "fst ` set (map (\<lambda>(k', v'). if k' = k then (k', v) else (k', v')) m) = fst ` set m"
  by (induction m) (auto split: prod.splits)

lemma keys_map_set: "fst ` set (map_set k v m) = insert k (fst ` set m)"
proof (cases "k \<in> fst ` set m")
  case True
  then show ?thesis
    by (simp add: map_set_def keys_overwrite insert_absorb del: set_map)
next
  case False
  then show ?thesis
    by (simp add: map_set_def)
qed

lemma map_set_map_set: "k \<in> fst ` set m \<Longrightarrow> map_set k w (map_set k v m) = map_set k w m"
proof -
  assume k: "k \<in> fst ` set m"
  then have k2: "k \<in> fst ` set (map_set k v m)"
    by (simp only: keys_map_set insertI1)
  have "map_set k w (map_set k v m)
        = map (\<lambda>(k', v'). if k' = k then (k', w) else (k', v')) (map_set k v m)"
    by (rule map_set_present [OF k2])
  also have "\<dots> = map (\<lambda>(k', v'). if k' = k then (k', w) else (k', v'))
          (map (\<lambda>(k', v'). if k' = k then (k', v) else (k', v')) m)"
    by (simp only: map_set_present [OF k])
  also have "\<dots> = map (\<lambda>(k', v'). if k' = k then (k', w) else (k', v')) m"
    by (induction m) (auto split: prod.splits)
  also have "\<dots> = map_set k w m"
    by (simp only: map_set_present [OF k])
  finally show ?thesis .
qed

lemma handleNoteOff_clock:
  "map_get (activeNotes s) note = Some noteData \<Longrightarrow>
   handleNoteOff (Some t) note s =
     s\<lparr>activeNotes := map_set note (noteData\<lparr>isReleased := True, releaseTime := Some t\<rparr>) (activeNotes s),
       activeNotesUI := filter (\<lambda>n. n \<noteq> note) (activeNotesUI s)\<rparr>"
  by (simp add: handleNoteOff_def)

lemma handleNoteOff_no_clock:
  "handleNoteOff None note s =
     s\<lparr>activeNotes := map_delete note (activeNotes s),
       activeNotesUI := filter (\<lambda>n. n \<noteq> note) (activeNotesUI s)\<rparr>"
  by (simp add: handleNoteOff_def split: option.splits)

lemma handleNoteOff_missing:
  "map_get (activeNotes s) note = None \<Longrightarrow>
   handleNoteOff ctx note s =
     s\<lparr>activeNotes := map_delete note (activeNotes s),
       activeNotesUI := filter (\<lambda>n. n \<noteq> note) (activeNotesUI s)\<rparr>"
  by (simp add: handleNoteOff_def split: option.splits)

text \<open>
  C10: without an audio context \<open>handleNoteOff\<close> deletes the note at once, so no
  released entry with a release time is left for it; with an audio context a note
  that is present is kept and marked released at the clock's time.
\<close>

theorem noteOff_without_clock_deletes:
  "map_get (activeNotes (handleNoteOff None note s)) note = None \<and>
   activeNotes (handleNoteOff None note s) = map_delete note (activeNotes s) \<and>
   (\<forall>noteData currentTime. map_get (activeNotes s) note = Some noteData \<longrightarrow>
      map_get (activeNotes (handleNoteOff (Some currentTime) note s)) note
        = Some (noteData\<lparr>isReleased := True, releaseTime := Some currentTime\<rparr>))"
  by (simp add: handleNoteOff_no_clock handleNoteOff_clock map_get_map_delete map_get_map_set)

theorem noteOff_without_clock_deletes_witness:
  "map_get (activeNotes oneNote) 60 = Some heldNote \<and>
   activeNotes (handleNoteOff None 60 oneNote) = [] \<and>
   map_get (activeNotes (handleNoteOff (Some 2) 60 oneNote)) 60
     = Some (heldNote\<lparr>isReleased := True, releaseTime := Some 2\<rparr>)"
proof -
  have h: "map_get (activeNotes oneNote) 60 = Some heldNote"
    by (simp add: oneNote_def map_get_def)
  have d: "map_delete 60 (activeNotes oneNote) = []"
    by (simp add: oneNote_def map_delete_def)
  from noteOff_without_clock_deletes [of 60 oneNote] h d show ?thesis
    by simp
qed

text \<open>
  C7 as stated fails: a second \<open>handleNoteOff\<close> at a later clock time does not leave
  the state of the first call, it stores the later release time.
\<close>

theorem noteOff_twice_later_counterexample:
  "handleNoteOff (Some 2) 60 (handleNoteOff (Some 1) 60 oneNote)
     \<noteq> handleNoteOff (Some 1) 60 oneNote"
  by (simp add: handleNoteOff_def oneNote_def heldNote_def map_get_def map_set_def)

text \<open>
  C7, amended: for a note present in the registry, a second \<open>handleNoteOff\<close> that
  reads the same clock as the first changes nothing; a second call at another clock
  time gives the state of a single call at that second time: the entry stays
  released and its release time is the time of the second call.
\<close>

theorem noteOff_twice:
  assumes "map_get (activeNotes s) note = Some noteData"
  shows "handleNoteOff ctx note (handleNoteOff ctx note s) = handleNoteOff ctx note s \<and>
         handleNoteOff (Some t2) note (handleNoteOff (Some t1) note s)
           = handleNoteOff (Some t2) note s \<and>
         map_get (activeNotes (handleNoteOff (Some t2) note (handleNoteOff (Some t1) note s))) note
           = Some (noteData\<lparr>isReleased := True, releaseTime := Some t2\<rparr>)"
proof -
  have k: "note \<in> fst ` set (activeNotes s)"
    using assms by (rule map_get_SomeD)
  have two: "handleNoteOff (Some b) note (handleNoteOff (Some a) note s)
           = handleNoteOff (Some b) note s" for a b
  proof -
    have "map_get (activeNotes (handleNoteOff (Some a) note s)) note
          = Some (noteData\<lparr>isReleased := True, releaseTime := Some a\<rparr>)"
      using assms by (simp add: handleNoteOff_clock map_get_map_set)
    then have "handleNoteOff (Some b) note (handleNoteOff (Some a) note s)
          = (handleNoteOff (Some a) note s)
              \<lparr>activeNotes := map_set note (noteData\<lparr>isReleased := True, releaseTime := Some b\<rparr>)
                                (activeNotes (handleNoteOff (Some a) note s)),
                activeNotesUI := filter (\<lambda>n. n \<noteq> note) (activeNotesUI (handleNoteOff (Some a) note s))\<rparr>"
      by (simp add: handleNoteOff_clock)
    then show ?thesis
      using assms k by (simp add: handleNoteOff_clock map_set_map_set)
  qed
  have none: "handleNoteOff None note (handleNoteOff None note s) = handleNoteOff None note s"
    by (simp add: handleNoteOff_no_clock map_delete_idem)
  have same: "handleNoteOff ctx note (handleNoteOff ctx note s) = handleNoteOff ctx note s"
    by (cases ctx) (simp_all add: none two)
  have "map_get (activeNotes (handleNoteOff (Some t2) note s)) note
          = Some (noteData\<lparr>isReleased := True, releaseTime := Some t2\<rparr>)"
    using assms by (simp add: handleNoteOff_clock map_get_map_set)
  with same two show ?thesis
    by simp
qed

theorem noteOff_twice_witness:
  "handleNoteOff (Some 1) 60 (handleNoteOff (Some 1) 60 oneNote) = handleNoteOff (Some 1) 60 oneNote \<and>
   map_get (activeNotes (handleNoteOff (Some 2) 60 (handleNoteOff (Some 1) 60 oneNote))) 60
     = Some (heldNote\<lparr>isReleased := True, releaseTime := Some 2\<rparr>)"
proof -
  have h: "map_get (activeNotes oneNote) 60 = Some heldNote"
    by (simp add: oneNote_def map_get_def)
  from noteOff_twice [OF h, of "Some 1" 2 1] show ?thesis
    by blast
qed

section \<open>Properties of a scheduling slot\<close>

lemma expired_iff:
  "expired p now data =
     (isReleased data \<and> (\<exists>r. releaseTime data = Some r \<and> r \<noteq> 0 \<and> now > r + release p))"
  by (cases "releaseTime data") (auto simp: expired_def)


lemma forEachNote_kept:
  "fst (forEachNote p now m) = filter (\<lambda>(note, data). \<not> expired p now data) m"
  by (induction m) (auto simp: Let_def split_def)







section \<open>The envelope and the sweep\<close>

lemma envGain_matches_spec:
  "\<not> (isReleased data \<and> releaseTime data = Some 0) \<Longrightarrow>
   envGain p data now = envelopeGain p data now"
  by (cases "releaseTime data") (auto simp: envGain_def envelopeGain_def Let_def)

lemma sweep_removes_iff:
  "entry \<in> set m \<Longrightarrow>
   (entry \<notin> set (fst (forEachNote p now m))) =
     (isReleased (snd entry) \<and>
      (\<exists>r. releaseTime (snd entry) = Some r \<and> r \<noteq> 0 \<and> now > r + release p))"
  by (auto simp: forEachNote_kept expired_iff)

text \<open>
  C1 at a note released while the clock read 0: the stored release time is falsy,
  the release branch is skipped and the envelope is 0 inside the release window,
  where the specification's fade from the sustain level gives 0.64.
\<close>

theorem envelope_release_at_clock_zero:
  "map_get (activeNotes (handleNoteOff (Some 0) 60 oneNote)) 60 = Some stuckNote \<and>
   envGain initialParams stuckNote (1 / 10) = 0 \<and>
   envelopeGain initialParams stuckNote (1 / 10) = 16 / 25"
  by (simp add: handleNoteOff_def oneNote_def map_get_def map_set_def stuckNote_def heldNote_def
        envGain_def envelopeGain_def initialParams_def)

text \<open>
  C5 at the same note: it is released, its release time is set and the slot time 1
  is past release time plus release (0.5), yet the pass over the registry keeps it,
  at this and at every other slot time.
\<close>

theorem sweep_keeps_release_at_clock_zero:
  "isReleased stuckNote \<and> releaseTime stuckNote = Some 0 \<and>
   1 > 0 + release initialParams \<and>
   fst (forEachNote initialParams 1 [(60, stuckNote)]) = [(60, stuckNote)] \<and>
   (\<forall>now. fst (forEachNote initialParams now [(60, stuckNote)]) = [(60, stuckNote)])"
  by (simp add: stuckNote_def heldNote_def initialParams_def expired_def Let_def)

section \<open>The invariant\<close>

lemma registryInv_map_set:
  "registryInv m \<Longrightarrow> noteInv v \<Longrightarrow> registryInv (map_set k v m)"
  by (auto simp: registryInv_def map_set_def list_all_iff split: if_splits)

lemma registryInv_map_delete: "registryInv m \<Longrightarrow> registryInv (map_delete k m)"
  by (auto simp: registryInv_def map_delete_def list_all_iff)

lemma registryInv_subset: "set m' \<subseteq> set m \<Longrightarrow> registryInv m \<Longrightarrow> registryInv m'"
  by (auto simp: registryInv_def list_all_iff)

lemma runSlot_notes: "set (activeNotes (fst (runSlot e d s))) \<subseteq> set (activeNotes s)"
  by (auto simp: runSlot_def Let_def forEachNote_kept)

lemma slotLoop_notes: "set (activeNotes (fst (slotLoop e d t s))) \<subseteq> set (activeNotes s)"
proof (induction e d t s rule: slotLoop.induct)
  case (1 e d t s)
  show ?case
  proof (cases "nextGrainTime s < t + 0.1")
    case True
    then have "fst (slotLoop e d t s) = fst (slotLoop e d t (fst (runSlot e d s)))"
      by (subst slotLoop.simps) (simp add: Let_def)
    moreover have "set (activeNotes (fst (slotLoop e d t (fst (runSlot e d s)))))
          \<subseteq> set (activeNotes (fst (runSlot e d s)))"
      using True by (rule "1.IH") simp_all
    ultimately show ?thesis
      using runSlot_notes [of e d s] by auto
  next
    case False
    then show ?thesis
      by (subst slotLoop.simps) simp
  qed
qed

lemma requestFrame_notes: "activeNotes (requestFrame s) = activeNotes s"
  by (simp add: requestFrame_def Let_def)

lemma scheduleGrains_notes: "set (activeNotes (fst (scheduleGrains e s))) \<subseteq> set (activeNotes s)"
  by (auto simp: scheduleGrains_def Let_def requestFrame_notes
      split: option.splits dest: subsetD [OF slotLoop_notes])

lemma handleNoteOff_inv: "registryInv (activeNotes s) \<Longrightarrow> registryInv (activeNotes (handleNoteOff ctx k s))"
proof (cases "map_get (activeNotes s) k")
  case None
  assume "registryInv (activeNotes s)"
  with None show ?thesis
    by (simp add: handleNoteOff_missing registryInv_map_delete)
next
  case (Some noteData)
  assume inv: "registryInv (activeNotes s)"
  show ?thesis
  proof (cases ctx)
    case None
    with inv show ?thesis
      by (simp add: handleNoteOff_no_clock registryInv_map_delete)
  next
    case (Some t)
    have "noteInv (noteData\<lparr>isReleased := True, releaseTime := Some t\<rparr>)"
      by (simp add: noteInv_def)
    with inv Some \<open>map_get (activeNotes s) k = Some noteData\<close> show ?thesis
      by (simp add: handleNoteOff_clock registryInv_map_set)
  qed
qed

lemma storeNote_inv: "registryInv (activeNotes s) \<Longrightarrow> registryInv (activeNotes (storeNote e k vel s))"
  by (simp add: storeNote_def registryInv_map_set noteInv_def)

lemma handleNoteOn_inv:
  assumes "registryInv (activeNotes s)"
  shows "registryInv (activeNotes (fst (handleNoteOn e k vel s)))"
proof -
  have inv1: "registryInv (activeNotes (storeNote e k vel s))"
    using assms by (rule storeNote_inv)
  show ?thesis
  proof (cases "ctxTime e")
    case None
    with inv1 show ?thesis
      by (simp add: handleNoteOn_def)
  next
    case (Some t)
    show ?thesis
    proof (cases "timerSet (storeNote e k vel s)")
      case True
      with Some inv1 show ?thesis
        by (simp add: handleNoteOn_def)
    next
      case False
      have "registryInv (activeNotes (fst (scheduleGrains e ((storeNote e k vel s)\<lparr>nextGrainTime := t\<rparr>))))"
        using scheduleGrains_notes
      proof (rule registryInv_subset)
        show "registryInv (activeNotes ((storeNote e k vel s)\<lparr>nextGrainTime := t\<rparr>))"
          using inv1 by simp
      qed
      with Some False show ?thesis
        by (simp add: handleNoteOn_def)
    qed
  qed
qed

text \<open>
  C9: \<open>handleNoteOn\<close> (with the scheduler run it may start), \<open>handleNoteOff\<close>, a
  scheduling slot with its sweep, and a whole call of \<open>scheduleGrains\<close> keep the
  invariant that \<open>releaseTime\<close> is set iff \<open>isReleased\<close> holds, for every entry of
  the registry.
\<close>

theorem registry_invariant_preserved:
  assumes "registryInv (activeNotes s)"
  shows "registryInv (activeNotes (fst (handleNoteOn e k vel s))) \<and>
         registryInv (activeNotes (handleNoteOff ctx k s)) \<and>
         registryInv (activeNotes (fst (runSlot e d s))) \<and>
         registryInv (activeNotes (fst (scheduleGrains e s)))"
  using assms handleNoteOn_inv handleNoteOff_inv
    registryInv_subset [OF runSlot_notes] registryInv_subset [OF scheduleGrains_notes]
  by blast

theorem registry_invariant_preserved_witness:
  "registryInv (activeNotes oneNote) \<and>
   registryInv (activeNotes (handleNoteOff (Some 2) 60 oneNote)) \<and>
   activeNotes (handleNoteOff (Some 2) 60 oneNote)
     = [(60, heldNote\<lparr>isReleased := True, releaseTime := Some 2\<rparr>)]"
proof -
  have h: "registryInv (activeNotes oneNote)"
    by (simp add: registryInv_def oneNote_def noteInv_def heldNote_def)
  have "activeNotes (handleNoteOff (Some 2) 60 oneNote)
     = [(60, heldNote\<lparr>isReleased := True, releaseTime := Some 2\<rparr>)]"
    by (simp add: handleNoteOff_def oneNote_def map_get_def map_set_def)
  with h registry_invariant_preserved [OF h, of readyEnv 60 1 "Some 2" 10] show ?thesis
    by simp
qed

section \<open>The scheduling loop\<close>

lemma slotLoop_done:
  "\<not> nextGrainTime s < t + 0.1 \<Longrightarrow> slotLoop e d t s = (s, [])"
  by (subst slotLoop.simps) simp

lemma slotLoop_step:
  "nextGrainTime s < t + 0.1 \<Longrightarrow>
   slotLoop e d t s =
     (fst (slotLoop e d t (fst (runSlot e d s))),
      (nextGrainTime s, snd (runSlot e d s)) # snd (slotLoop e d t (fst (runSlot e d s))))"
  by (subst slotLoop.simps) (simp add: Let_def)













section \<open>Grain placement\<close>

lemma relativeGrainPos_single_wrap:
  "relativeGrainPos p u =
     (let relativePos = position p + ((u - 0.5) * 2) * spread p
      in if relativePos < 0 then relativePos + 1
         else if relativePos > 1 then relativePos - 1 else relativePos)"
  by (simp add: relativeGrainPos_def Let_def)









section \<open>Placement against the specification\<close>






section \<open>Starting and stopping the loop\<close>

lemma tapped_eval:
  "tapped = \<lparr>activeNotes = [(60, \<lparr>velocity = 0.8, startTime = 1, releaseTime = Some 1, isReleased = True\<rparr>)],
      activeNotesUI = [], nextGrainTime = 1,
      timerId = None, lastHandle = 0, pendingFrames = [], rngIndex = 0\<rparr>"
  by (simp add: tapped_def handleNoteOn_def storeNote_def tapEnv_def idleEngine_def timerSet_def
      scheduleGrains_def handleNoteOff_def map_get_def map_set_def)

lemma tapStarted_eval:
  "tapStarted = \<lparr>activeNotes = [(60, \<lparr>velocity = 0.8, startTime = 1, releaseTime = Some 1, isReleased = True\<rparr>)],
      activeNotesUI = [], nextGrainTime = 1,
      timerId = Some 1, lastHandle = 1, pendingFrames = [1], rngIndex = 0\<rparr>"
  by (simp add: tapStarted_def tapped_eval loopEffectCleanup_def loopEffect_def frameEnv_def
      timerSet_def requestFrame_def)

lemma firstFrame_eval:
  "firstFrame =
     \<lparr>activeNotes = [(60, \<lparr>velocity = 0.8, startTime = 1, releaseTime = Some 1, isReleased = True\<rparr>)],
      activeNotesUI = [], nextGrainTime = 6 / 5,
      timerId = Some 2, lastHandle = 2, pendingFrames = [2], rngIndex = 2\<rparr>"
  unfolding firstFrame_def tapStarted_eval
  by (simp add: animationFrame_def scheduleGrains_def frameEnv_def Let_def
       slotLoop_step slotLoop_done runSlot_def notesToPlay_def droneVoices_def
       expired_def envGain_def tapParams_def initialParams_def requestFrame_def)

lemma sweepFrame_eval:
  "sweepFrame =
     \<lparr>activeNotes = [], activeNotesUI = [], nextGrainTime = 7 / 5,
      timerId = Some 3, lastHandle = 3, pendingFrames = [3], rngIndex = 2\<rparr>"
  unfolding sweepFrame_def firstFrame_eval
  by (simp add: animationFrame_def scheduleGrains_def frameEnv_def Let_def
       slotLoop_step slotLoop_done runSlot_def notesToPlay_def droneVoices_def
       expired_def envGain_def tapParams_def initialParams_def requestFrame_def)

lemma idleFrame_eval:
  "idleFrame =
     \<lparr>activeNotes = [], activeNotesUI = [], nextGrainTime = 8 / 5,
      timerId = Some 4, lastHandle = 4, pendingFrames = [4], rngIndex = 2\<rparr>"
  unfolding idleFrame_def sweepFrame_eval
  by (simp add: animationFrame_def scheduleGrains_def frameEnv_def Let_def
       slotLoop_step slotLoop_done runSlot_def notesToPlay_def droneVoices_def
       tapParams_def initialParams_def requestFrame_def)

lemma slotLoop_frames: "pendingFrames (fst (slotLoop e d t s)) = pendingFrames s"
proof (induction e d t s rule: slotLoop.induct)
  case (1 e d t s)
  show ?case
  proof (cases "nextGrainTime s < t + 0.1")
    case False
    then show ?thesis by (simp add: slotLoop_done)
  next
    case True
    have "pendingFrames (fst (slotLoop e d t (fst (runSlot e d s))))
        = pendingFrames (fst (runSlot e d s))"
      using True by (rule "1.IH") simp_all
    then show ?thesis
      by (simp add: slotLoop_step [OF True] runSlot_def Let_def)
  qed
qed

lemma scheduleGrains_reschedules:
  "audioReady e \<Longrightarrow> pendingFrames (fst (scheduleGrains e s)) \<noteq> [] \<and> timerSet (fst (scheduleGrains e s))"
  by (auto simp: audioReady_def scheduleGrains_def Let_def requestFrame_def timerSet_def)

lemma animationFrame_reschedules:
  "audioReady e \<Longrightarrow> pendingFrames s \<noteq> [] \<Longrightarrow> pendingFrames (animationFrame e s) \<noteq> []"
  by (cases "pendingFrames s") (simp_all add: animationFrame_def scheduleGrains_reschedules)

lemma runFrames_keep_running:
  "list_all audioReady es \<Longrightarrow> pendingFrames s \<noteq> [] \<Longrightarrow> pendingFrames (runFrames es s) \<noteq> []"
  by (induction es arbitrary: s) (simp_all add: animationFrame_reschedules)

text \<open>
  C6 on a short tap: note-on and note-off arrive at clock 1 before the effect runs,
  the effect starts the loop for the releasing note, the frame at clock 1.2 sweeps
  it, so the registry is empty with the drone disarmed; the frame at clock 1.4
  starts in that state and still requests the next frame: the loop has not stopped.
\<close>

theorem loop_keeps_running_when_idle:
  "pendingFrames tapStarted = [1] \<and>
   activeNotes sweepFrame = [] \<and> \<not> isPlaying (frameEnv (7 / 5)) \<and>
   idleFrame = animationFrame (frameEnv (7 / 5)) sweepFrame \<and>
   pendingFrames idleFrame = [4] \<and> timerId idleFrame = Some 4"
proof -
  have "idleFrame = animationFrame (frameEnv (7 / 5)) sweepFrame"
    by (rule idleFrame_def)
  moreover have "pendingFrames idleFrame = [4] \<and> timerId idleFrame = Some 4"
    by (simp add: idleFrame_eval)
  moreover have "pendingFrames tapStarted = [1] \<and> activeNotes sweepFrame = []"
    by (simp add: tapStarted_eval sweepFrame_eval)
  moreover have "\<not> isPlaying (frameEnv (7 / 5))"
    by (simp add: frameEnv_def)
  ultimately show ?thesis
    by blast
qed

section \<open>The shape of the envelope\<close>

lemma envGain_held:
  "\<not> isReleased d \<Longrightarrow> T = max 0 (now - startTime d) \<Longrightarrow>
   envGain p d now =
     (if T < attack p then T / max 0.001 (attack p)
      else if T < attack p + decay p
           then 1 - (1 - sustain p) * ((T - attack p) / max 0.001 (decay p))
           else sustain p)"
  by (simp add: envGain_def Let_def)

lemma envGain_released:
  "isReleased d \<Longrightarrow> releaseTime d = Some r \<Longrightarrow> r \<noteq> 0 \<Longrightarrow> tr = now - r \<Longrightarrow>
   envGain p d now =
     (if tr < release p then sustain p * (1 - tr / max 0.001 (release p)) else 0)"
  by (simp add: envGain_def Let_def)

lemma envGain_released_falsy:
  "isReleased d \<Longrightarrow> \<not> truthy (releaseTime d) \<Longrightarrow> envGain p d now = 0"
  by (cases "releaseTime d") (simp_all add: envGain_def Let_def)

lemma floor_positive: "(0::real) < max 0.001 b" "b \<le> max 0.001 b"
  by simp_all

lemma ratio_unit:
  fixes x b :: real
  assumes "0 \<le> x" "x \<le> b"
  shows "0 \<le> x / max 0.001 b \<and> x / max 0.001 b \<le> 1"
proof -
  from assms(2) floor_positive(2) [of b] have "x \<le> max 0.001 b"
    by (rule order_trans)
  with assms(1) floor_positive(1) [of b] show ?thesis
    by (simp only: divide_le_eq_1_pos zero_le_divide_iff) simp
qed

lemma ratio_mono:
  fixes x y b :: real
  assumes "x \<le> y"
  shows "x / max 0.001 b \<le> y / max 0.001 b"
  using assms floor_positive(1) [of b] by (simp only: divide_right_mono less_imp_le)

lemma held_range:
  assumes "adsrInRange p" and "\<not> isReleased d"
  shows "0 \<le> envGain p d now \<and> envGain p d now \<le> 1"
proof -
  define T where "T = max 0 (now - startTime d)"
  have T0: "0 \<le> T"
    by (simp add: T_def)
  from assms(1) have s: "0 \<le> sustain p" "sustain p \<le> 1"
    by (simp_all add: adsrInRange_def)
  note eq = envGain_held [OF assms(2) T_def, of p]
  show ?thesis
  proof (cases "T < attack p")
    case True
    then have "0 \<le> T / max 0.001 (attack p) \<and> T / max 0.001 (attack p) \<le> 1"
      using T0 by (intro ratio_unit) simp_all
    with True show ?thesis
      by (simp only: eq if_True)
  next
    case False
    show ?thesis
    proof (cases "T < attack p + decay p")
      case True
      define q where "q = (T - attack p) / max 0.001 (decay p)"
      have q: "0 \<le> q \<and> q \<le> 1"
        unfolding q_def using True False by (intro ratio_unit) simp_all
      have "0 \<le> (1 - sustain p) * q"
        using s q by (intro mult_nonneg_nonneg) simp_all
      moreover have "(1 - sustain p) * q \<le> (1 - sustain p) * 1"
        using s q by (intro mult_left_mono) simp_all
      ultimately
      have "0 \<le> 1 - (1 - sustain p) * q \<and> 1 - (1 - sustain p) * q \<le> 1"
        using s by simp
      with True False show ?thesis
        by (simp only: eq if_True if_False q_def)
    next
      case F2: False
      with False s show ?thesis
        by (simp only: eq if_False)
    qed
  qed
qed

lemma released_range:
  assumes "adsrInRange p" and "isReleased d" and "\<forall>r. releaseTime d = Some r \<longrightarrow> r \<le> now"
  shows "0 \<le> envGain p d now \<and> envGain p d now \<le> 1"
proof (cases "truthy (releaseTime d)")
  case False
  with assms(2) show ?thesis
    by (simp add: envGain_released_falsy)
next
  case True
  then obtain r where r: "releaseTime d = Some r" "r \<noteq> 0"
    by (cases "releaseTime d") simp_all
  define tr where "tr = now - r"
  from assms(1) have s: "0 \<le> sustain p" "sustain p \<le> 1"
    by (simp_all add: adsrInRange_def)
  from assms(3) r have le: "0 \<le> tr"
    by (simp add: tr_def)
  note eq = envGain_released [OF assms(2) r tr_def, of p]
  show ?thesis
  proof (cases "tr < release p")
    case False
    then show ?thesis
      by (simp only: eq if_False) simp
  next
    case True
    define q where "q = tr / max 0.001 (release p)"
    have q: "0 \<le> q \<and> q \<le> 1"
      unfolding q_def using True le by (intro ratio_unit) simp_all
    then have "0 \<le> sustain p * (1 - q)"
      using s by simp
    moreover have "sustain p * (1 - q) \<le> 1 * 1"
      using s q by (intro mult_mono) simp_all
    ultimately show ?thesis
      using True by (simp only: eq if_True q_def) simp
  qed
qed

lemma attack_rising:
  assumes "\<not> isReleased d" and "now1 \<le> now2" and "max 0 (now2 - startTime d) < attack p"
  shows "envGain p d now1 \<le> envGain p d now2"
proof -
  define T1 where "T1 = max 0 (now1 - startTime d)"
  define T2 where "T2 = max 0 (now2 - startTime d)"
  have le: "T1 \<le> T2"
    using assms(2) by (simp add: T1_def T2_def)
  have t2: "T2 < attack p"
    using assms(3) by (simp only: T2_def)
  with le have t1: "T1 < attack p"
    by simp
  from le have "T1 / max 0.001 (attack p) \<le> T2 / max 0.001 (attack p)"
    by (rule ratio_mono)
  with t1 t2 show ?thesis
    by (simp only: envGain_held [OF assms(1) T1_def] envGain_held [OF assms(1) T2_def] if_True)
qed

lemma decay_falling:
  assumes "sustain p \<le> 1" and "\<not> isReleased d" and "now1 \<le> now2"
    and "attack p \<le> max 0 (now1 - startTime d)"
    and "max 0 (now2 - startTime d) < attack p + decay p"
  shows "envGain p d now2 \<le> envGain p d now1"
proof -
  define T1 where "T1 = max 0 (now1 - startTime d)"
  define T2 where "T2 = max 0 (now2 - startTime d)"
  have le: "T1 \<le> T2"
    using assms(3) by (simp add: T1_def T2_def)
  have a1: "attack p \<le> T1" and d2: "T2 < attack p + decay p"
    using assms(4,5) by (simp_all only: T1_def T2_def)
  from le have "T1 - attack p \<le> T2 - attack p"
    by simp
  then have "(T1 - attack p) / max 0.001 (decay p) \<le> (T2 - attack p) / max 0.001 (decay p)"
    by (rule ratio_mono)
  then have "(1 - sustain p) * ((T1 - attack p) / max 0.001 (decay p))
      \<le> (1 - sustain p) * ((T2 - attack p) / max 0.001 (decay p))"
    using assms(1) by (intro mult_left_mono) simp_all
  then have "1 - (1 - sustain p) * ((T2 - attack p) / max 0.001 (decay p))
      \<le> 1 - (1 - sustain p) * ((T1 - attack p) / max 0.001 (decay p))"
    by simp
  moreover have "\<not> T1 < attack p" "\<not> T2 < attack p" "T1 < attack p + decay p"
    using a1 d2 le by simp_all
  ultimately show ?thesis
    using d2
    by (simp only: envGain_held [OF assms(2) T1_def] envGain_held [OF assms(2) T2_def]
          if_True if_False)
qed

lemma sustain_level:
  assumes "\<not> isReleased d" and "0 \<le> decay p"
    and "attack p + decay p \<le> max 0 (now - startTime d)"
  shows "envGain p d now = sustain p"
proof -
  define T where "T = max 0 (now - startTime d)"
  have "\<not> T < attack p + decay p"
    using assms(3) by (simp only: T_def not_less)
  moreover from this assms(2) have "\<not> T < attack p"
    by simp
  ultimately show ?thesis
    by (simp only: envGain_held [OF assms(1) T_def] if_False)
qed

lemma release_falling:
  assumes "0 \<le> sustain p" and "isReleased d" and "now1 \<le> now2"
  shows "envGain p d now2 \<le> envGain p d now1"
proof (cases "truthy (releaseTime d)")
  case False
  with assms(2) show ?thesis
    by (simp add: envGain_released_falsy)
next
  case True
  then obtain r where r: "releaseTime d = Some r" "r \<noteq> 0"
    by (cases "releaseTime d") simp_all
  define t1 where "t1 = now1 - r"
  define t2 where "t2 = now2 - r"
  have le: "t1 \<le> t2"
    using assms(3) by (simp add: t1_def t2_def)
  note eq1 = envGain_released [OF assms(2) r t1_def, of p]
  note eq2 = envGain_released [OF assms(2) r t2_def, of p]
  have pos: "0 \<le> sustain p * (1 - t / max 0.001 (release p))" if "t < release p" for t
  proof -
    from that floor_positive(2) [of "release p"] have "t \<le> max 0.001 (release p)"
      by simp
    with floor_positive(1) [of "release p"] have "t / max 0.001 (release p) \<le> 1"
      by (simp only: divide_le_eq_1_pos)
    with assms(1) show ?thesis by simp
  qed
  show ?thesis
  proof (cases "t2 < release p")
    case False
    show ?thesis
    proof (cases "t1 < release p")
      case True
      with False pos [OF True] show ?thesis
        by (simp only: eq1 eq2 if_True if_False)
    next
      case F1: False
      with False show ?thesis
        by (simp only: eq1 eq2 if_False)
    qed
  next
    case True
    with le have l1: "t1 < release p"
      by simp
    from le have "t1 / max 0.001 (release p) \<le> t2 / max 0.001 (release p)"
      by (rule ratio_mono)
    then have "sustain p * (1 - t2 / max 0.001 (release p))
        \<le> sustain p * (1 - t1 / max 0.001 (release p))"
      using assms(1) by (intro mult_left_mono) simp_all
    with True l1 show ?thesis
      by (simp only: eq1 eq2 if_True)
  qed
qed

lemma held_closed_form:
  assumes "\<not> isReleased d" and "0.001 \<le> attack p" and "0.001 \<le> decay p"
  shows "envGain p d now =
           min 1 (max 0 (now - startTime d) / attack p)
           - (1 - sustain p) * min 1 (max 0 ((max 0 (now - startTime d) - attack p) / decay p))"
proof -
  define T where "T = max 0 (now - startTime d)"
  have a: "0 < attack p" "max 0.001 (attack p) = attack p"
    and dc: "0 < decay p" "max 0.001 (decay p) = decay p"
    using assms(2,3) by simp_all
  note eq = envGain_held [OF assms(1) T_def, of p, unfolded a(2) dc(2)]
  have goal: "(if T < attack p then T / attack p
        else if T < attack p + decay p then 1 - (1 - sustain p) * ((T - attack p) / decay p)
        else sustain p)
      = min 1 (T / attack p) - (1 - sustain p) * min 1 (max 0 ((T - attack p) / decay p))"
  proof (cases "T < attack p")
    case True
    then have "T / attack p < 1" "(T - attack p) / decay p < 0"
      using a(1) dc(1) by (simp_all add: divide_less_0_iff)
    with True show ?thesis
      by (simp add: min_def max_def)
  next
    case False
    then have one: "1 \<le> T / attack p" and nn: "0 \<le> (T - attack p) / decay p"
      using a(1) dc(1) by simp_all
    show ?thesis
    proof (cases "T < attack p + decay p")
      case True
      then have "(T - attack p) / decay p < 1"
        using dc(1) by simp
      with True False one nn show ?thesis
        by (simp add: min_def max_def)
    next
      case F2: False
      then have "1 \<le> (T - attack p) / decay p"
        using dc(1) by simp
      with F2 False one nn show ?thesis
        by (simp add: min_def max_def)
    qed
  qed
  have "envGain p d now =
      min 1 (T / attack p) - (1 - sustain p) * min 1 (max 0 ((T - attack p) / decay p))"
    by (simp only: eq goal)
  then show ?thesis
    by (simp only: T_def)
qed

lemma released_closed_form:
  assumes "isReleased d" and "releaseTime d = Some r" and "r \<noteq> 0" and "0.001 \<le> release p"
  shows "envGain p d now = sustain p * max 0 (1 - (now - r) / release p)"
proof -
  define tr where "tr = now - r"
  have c: "0 < release p" "max 0.001 (release p) = release p"
    using assms(4) by simp_all
  note eq = envGain_released [OF assms(1-3) tr_def, of p, unfolded c(2)]
  have "(if tr < release p then sustain p * (1 - tr / release p) else 0)
      = sustain p * max 0 (1 - tr / release p)"
  proof (cases "tr < release p")
    case True
    then have "tr / release p < 1"
      using c(1) by simp
    with True show ?thesis
      by (simp add: max_def)
  next
    case False
    then have "1 \<le> tr / release p"
      using c(1) by simp
    with False show ?thesis
      by (simp add: max_def)
  qed
  then have "envGain p d now = sustain p * max 0 (1 - tr / release p)"
    by (simp only: eq)
  then show ?thesis
    by (simp only: tr_def)
qed

lemma held_continuous:
  assumes "\<not> isReleased d" and "0.001 \<le> attack p" and "0.001 \<le> decay p"
  shows "isCont (envGain p d) now"
proof -
  have "envGain p d =
      (\<lambda>t. min 1 (max 0 (t - startTime d) / attack p)
           - (1 - sustain p) * min 1 (max 0 ((max 0 (t - startTime d) - attack p) / decay p)))"
    by (rule ext) (rule held_closed_form [OF assms])
  moreover have "isCont (\<lambda>t. min 1 (max 0 (t - startTime d) / attack p)
           - (1 - sustain p) * min 1 (max 0 ((max 0 (t - startTime d) - attack p) / decay p))) now"
    using assms(2,3) by (intro continuous_intros) simp_all
  ultimately show ?thesis
    by simp
qed

lemma released_continuous:
  assumes "isReleased d" and "0.001 \<le> release p"
  shows "isCont (envGain p d) now"
proof (cases "truthy (releaseTime d)")
  case False
  with assms(1) have "envGain p d = (\<lambda>t. 0)"
    by (intro ext) (rule envGain_released_falsy)
  then show ?thesis
    by simp
next
  case True
  then obtain r where r: "releaseTime d = Some r" "r \<noteq> 0"
    by (cases "releaseTime d") simp_all
  have "envGain p d = (\<lambda>t. sustain p * max 0 (1 - (t - r) / release p))"
    by (rule ext) (rule released_closed_form [OF assms(1) r assms(2)])
  moreover have "isCont (\<lambda>t. sustain p * max 0 (1 - (t - r) / release p)) now"
    using assms(2) by (intro continuous_intros) simp_all
  ultimately show ?thesis
    by simp
qed

lemma jump_at_end_of_attack: "\<not> isCont (envGain jumpParams heldNote) (1 / 10)"
proof
  assume "isCont (envGain jumpParams heldNote) (1 / 10)"
  then have "envGain jumpParams heldNote \<midarrow>1 / 10\<rightarrow> envGain jumpParams heldNote (1 / 10)"
    by (simp only: isCont_def)
  from LIM_D [OF this, of "1 / 10"] obtain s where s: "0 < s"
    and near: "\<And>x. x \<noteq> 1 / 10 \<and> norm (x - 1 / 10) < s \<Longrightarrow>
        norm (envGain jumpParams heldNote x - envGain jumpParams heldNote (1 / 10)) < 1 / 10"
    by auto
  define x where "x = 1 / 10 - min (s / 2) (1 / 100)"
  have x: "x \<noteq> 1 / 10" "norm (x - 1 / 10) < s" "9 / 100 \<le> x" "x < 1 / 10"
    using s by (simp_all add: x_def min_def)
  have at_end: "envGain jumpParams heldNote (1 / 10) = 4 / 5"
    by (simp add: envGain_def jumpParams_def initialParams_def heldNote_def)
  have before: "envGain jumpParams heldNote x = x * 10"
    using x(3,4) by (simp add: envGain_def jumpParams_def initialParams_def heldNote_def)
  from x(1,2) have "x \<noteq> 1 / 10 \<and> norm (x - 1 / 10) < s"
    by (rule conjI)
  then have "norm (envGain jumpParams heldNote x - envGain jumpParams heldNote (1 / 10)) < 1 / 10"
    by (rule near)
  then have "norm (x * 10 - 4 / 5) < 1 / 10"
    by (simp only: before at_end)
  with x(3) show False
    by simp
qed

text \<open>
  C8 as stated fails inside the documented ranges: with a decay of 0 the envelope of
  a held note jumps from 1 to the sustain level at the end of the attack, and with
  a sustain of 1 a note released at clock 1 has a gain above 1 at the slot time
  0.95, which lies before its release time.
\<close>

theorem envelope_shape_counterexample:
  "adsrInRange jumpParams \<and> \<not> isCont (envGain jumpParams heldNote) (1 / 10) \<and>
   adsrInRange loudParams \<and> 1 < envGain loudParams lateNote (19 / 20)"
proof -
  have "adsrInRange jumpParams" "adsrInRange loudParams"
    by (simp_all add: adsrInRange_def jumpParams_def loudParams_def initialParams_def)
  moreover have "1 < envGain loudParams lateNote (19 / 20)"
    by (simp add: envGain_def loudParams_def lateNote_def heldNote_def initialParams_def)
  ultimately show ?thesis
    using jump_at_end_of_attack by simp
qed

text \<open>
  C8, amended: with sustain in \<open>[0, 1]\<close> and attack, decay and release not negative,
  the gain lies in \<open>[0, 1]\<close> for a held note and for a released note from its release
  time on; it does not decrease during the attack, does not increase during the
  decay, equals the sustain level afterwards, and does not increase with time once
  the note is released; it is continuous in time for a held note when attack and
  decay are at least the floor 0.001, and for a released note when the release is
  at least 0.001.
\<close>

theorem envelope_shape:
  assumes "adsrInRange p"
  shows "(\<not> isReleased d \<or> (\<forall>r. releaseTime d = Some r \<longrightarrow> r \<le> now) \<longrightarrow>
            0 \<le> envGain p d now \<and> envGain p d now \<le> 1) \<and>
         (\<not> isReleased d \<and> now1 \<le> now2 \<and> max 0 (now2 - startTime d) < attack p \<longrightarrow>
            envGain p d now1 \<le> envGain p d now2) \<and>
         (\<not> isReleased d \<and> now1 \<le> now2 \<and> attack p \<le> max 0 (now1 - startTime d) \<and>
            max 0 (now2 - startTime d) < attack p + decay p \<longrightarrow>
            envGain p d now2 \<le> envGain p d now1) \<and>
         (\<not> isReleased d \<and> attack p + decay p \<le> max 0 (now - startTime d) \<longrightarrow>
            envGain p d now = sustain p) \<and>
         (isReleased d \<and> now1 \<le> now2 \<longrightarrow> envGain p d now2 \<le> envGain p d now1) \<and>
         (\<not> isReleased d \<and> 0.001 \<le> attack p \<and> 0.001 \<le> decay p \<longrightarrow>
            isCont (envGain p d) now) \<and>
         (isReleased d \<and> 0.001 \<le> release p \<longrightarrow> isCont (envGain p d) now)"
proof -
  from assms have s: "0 \<le> sustain p" "sustain p \<le> 1" "0 \<le> decay p"
    by (simp_all add: adsrInRange_def)
  have range: "\<not> isReleased d \<or> (\<forall>r. releaseTime d = Some r \<longrightarrow> r \<le> now) \<longrightarrow>
            0 \<le> envGain p d now \<and> envGain p d now \<le> 1"
    using held_range [OF assms, of d now] released_range [OF assms, of d now] by blast
  have rise: "\<not> isReleased d \<and> now1 \<le> now2 \<and> max 0 (now2 - startTime d) < attack p \<longrightarrow>
            envGain p d now1 \<le> envGain p d now2"
    by (blast intro: attack_rising)
  have fall: "\<not> isReleased d \<and> now1 \<le> now2 \<and> attack p \<le> max 0 (now1 - startTime d) \<and>
            max 0 (now2 - startTime d) < attack p + decay p \<longrightarrow>
            envGain p d now2 \<le> envGain p d now1"
    using s(2) by (blast intro: decay_falling)
  have level: "\<not> isReleased d \<and> attack p + decay p \<le> max 0 (now - startTime d) \<longrightarrow>
            envGain p d now = sustain p"
    using s(3) by (blast intro: sustain_level)
  have rel: "isReleased d \<and> now1 \<le> now2 \<longrightarrow> envGain p d now2 \<le> envGain p d now1"
    using s(1) by (blast intro: release_falling)
  have c1: "\<not> isReleased d \<and> 0.001 \<le> attack p \<and> 0.001 \<le> decay p \<longrightarrow> isCont (envGain p d) now"
    by (blast intro: held_continuous)
  have c2: "isReleased d \<and> 0.001 \<le> release p \<longrightarrow> isCont (envGain p d) now"
    by (blast intro: released_continuous)
  from range rise fall level rel c1 c2 show ?thesis
    by blast
qed

theorem envelope_shape_witness:
  "adsrInRange initialParams \<and>
   0 \<le> envGain initialParams heldNote (1 / 20) \<and> envGain initialParams heldNote (1 / 20) \<le> 1 \<and>
   envGain initialParams heldNote (1 / 50) \<le> envGain initialParams heldNote (1 / 20) \<and>
   envGain initialParams heldNote (1 / 4) \<le> envGain initialParams heldNote (3 / 20) \<and>
   envGain initialParams heldNote (1 / 2) = 4 / 5 \<and>
   envGain initialParams lateNote (13 / 10) \<le> envGain initialParams lateNote (6 / 5) \<and>
   isCont (envGain initialParams heldNote) (1 / 10) \<and>
   isCont (envGain initialParams lateNote) (3 / 2)"
proof -
  have r: "adsrInRange initialParams"
    by (simp add: adsrInRange_def initialParams_def)
  have h: "\<not> isReleased heldNote" "startTime heldNote = 0" "isReleased lateNote"
    by (simp_all add: heldNote_def lateNote_def)
  have p: "attack initialParams = 1 / 10" "decay initialParams = 1 / 5"
      "sustain initialParams = 4 / 5" "release initialParams = 1 / 2"
    by (simp_all add: initialParams_def)
  note held = envelope_shape [OF r, of heldNote]
  note late = envelope_shape [OF r, of lateNote]
  from held [of "1 / 20" "1 / 50" "1 / 20", THEN conjunct1] h
  have a: "0 \<le> envGain initialParams heldNote (1 / 20) \<and> envGain initialParams heldNote (1 / 20) \<le> 1"
    by simp
  from held [of "1 / 20" "1 / 50" "1 / 20", THEN conjunct2, THEN conjunct1] h p
  have b: "envGain initialParams heldNote (1 / 50) \<le> envGain initialParams heldNote (1 / 20)"
    by simp
  from held [of "1 / 2" "3 / 20" "1 / 4", THEN conjunct2, THEN conjunct2, THEN conjunct1] h p
  have c: "envGain initialParams heldNote (1 / 4) \<le> envGain initialParams heldNote (3 / 20)"
    by simp
  from held [of "1 / 2" "3 / 20" "1 / 4", THEN conjunct2, THEN conjunct2, THEN conjunct2,
      THEN conjunct1] h p
  have d: "envGain initialParams heldNote (1 / 2) = 4 / 5"
    by simp
  from late [of "3 / 2" "6 / 5" "13 / 10", THEN conjunct2, THEN conjunct2, THEN conjunct2,
      THEN conjunct2, THEN conjunct1] h
  have e: "envGain initialParams lateNote (13 / 10) \<le> envGain initialParams lateNote (6 / 5)"
    by simp
  from held [of "1 / 10" "3 / 20" "1 / 4", THEN conjunct2, THEN conjunct2, THEN conjunct2,
      THEN conjunct2, THEN conjunct2, THEN conjunct1] h p
  have f: "isCont (envGain initialParams heldNote) (1 / 10)"
    by simp
  from late [of "3 / 2" "6 / 5" "13 / 10", THEN conjunct2, THEN conjunct2, THEN conjunct2,
      THEN conjunct2, THEN conjunct2, THEN conjunct2] h p
  have g: "isCont (envGain initialParams lateNote) (3 / 2)"
    by simp
  from r a b c d e f g show ?thesis
    by simp
qed

end
